theory Spec2Isabelle
  imports Main "HOL-Library.Multiset"
begin

section \<open>Values crossing the JavaScript / SQL boundary\<close>

text \<open>
  A field of a JSON request body, as the controllers destructure it: absent
  (\<open>undefined\<close>), \<open>null\<close> or a string. Numbers, booleans and nested values in a body
  are outside this model. Ids are integers (\<open>SERIAL\<close>, \<open>INTEGER\<close> columns); a path
  parameter that is not the text of an integer is outside this model as well.
\<close>

datatype jsval = Undefined | Null | Str string

text \<open>The database driver sends both \<open>undefined\<close> and \<open>null\<close> as SQL \<open>NULL\<close>.\<close>

fun sql_param :: "jsval \<Rightarrow> string option" where
  "sql_param Undefined = None"
| "sql_param Null = None"
| "sql_param (Str s) = Some s"

text \<open>
  A query that the database rejects throws; the model returns the reason, in the order
  in which the database checks a row: the assignment to the column types, \<open>NOT NULL\<close>,
  \<open>CHECK\<close>, \<open>UNIQUE\<close>, and the foreign key last. A lost connection is not
  modelled: a query that the constraints admit returns.
\<close>

datatype db_error =
  StringTooLong | NotNullViolation | CheckViolation | UniqueViolation | ForeignKeyViolation

definition and_then :: "'e + 'a \<Rightarrow> ('a \<Rightarrow> 'e + 'b) \<Rightarrow> 'e + 'b" where
  "and_then r f = (case r of Inl e \<Rightarrow> Inl e | Inr x \<Rightarrow> f x)"

text \<open>
  Assignment to a \<open>VARCHAR(n)\<close> column: a longer string is rejected, unless the excess
  is spaces only, which are cut off. \<open>NULL\<close> passes. The database counts characters;
  so does the model, for the ASCII strings it has.
\<close>

fun varchar :: "nat \<Rightarrow> string option \<Rightarrow> db_error + string option" where
  "varchar n None = Inr None"
| "varchar n (Some s) =
     (if length s \<le> n then Inr (Some s)
      else if list_all (\<lambda>c. c = CHR '' '') (drop n s) then Inr (Some (take n s))
      else Inl StringTooLong)"

definition rows0 :: "'a list \<Rightarrow> 'a option" where
  "rows0 rows = (case rows of [] \<Rightarrow> None | r # _ \<Rightarrow> Some r)"

text \<open>
  \<open>ORDER BY k DESC\<close>. SQL leaves the order of rows with equal keys open; the model
  fixes one.
\<close>

definition order_by_desc :: "('a \<Rightarrow> nat) \<Rightarrow> 'a list \<Rightarrow> 'a list" where
  "order_by_desc k rows = rev (sort_key k rows)"

section \<open>The tables\<close>

text \<open>
  One record per table of the migration, a field per column, named as the queries name
  them (\<open>t.id\<close>, \<open>u.name\<close>). A \<open>NOT NULL\<close> column holds a value, any other column
  an option. Timestamps are points of a clock that the operations receive as \<open>now\<close>
  (\<open>CURRENT_TIMESTAMP\<close>).
\<close>

record task =
  t_id :: int
  t_title :: string
  t_description :: "string option"
  t_status :: "string option"
  t_priority :: "string option"
  t_user_id :: int
  t_created_at :: nat
  t_updated_at :: nat

record user =
  u_id :: int
  u_name :: string
  u_email :: string
  u_password :: string
  u_role :: "string option"
  u_created_at :: nat
  u_updated_at :: nat

text \<open>A row of \<open>SELECT t.*, u.name as user_name, u.email as user_email\<close>.\<close>

record task_view = task +
  user_name :: string
  user_email :: string

text \<open>The two tables and the next value of each \<open>SERIAL\<close> sequence.\<close>

record db =
  tasks :: "task list"
  users :: "user list"
  tasks_id_seq :: int
  users_id_seq :: int

text \<open>The \<open>CHECK\<close> constraints; a \<open>NULL\<close> satisfies a \<open>CHECK\<close>.\<close>

definition status_check :: "string option \<Rightarrow> bool" where
  "status_check s =
     (case s of None \<Rightarrow> True
      | Some v \<Rightarrow> v \<in> set [''pending'', ''in_progress'', ''completed''])"

definition priority_check :: "string option \<Rightarrow> bool" where
  "priority_check s =
     (case s of None \<Rightarrow> True | Some v \<Rightarrow> v \<in> set [''low'', ''medium'', ''high''])"

definition role_check :: "string option \<Rightarrow> bool" where
  "role_check s = (case s of None \<Rightarrow> True | Some v \<Rightarrow> v \<in> set [''user'', ''admin''])"

text \<open>
  The constraints a row of \<open>tasks\<close> must pass when written, given its column values
  after the \<open>VARCHAR\<close> assignment: \<open>NOT NULL\<close>, then \<open>CHECK\<close>.
\<close>

definition task_constraints ::
  "string option \<Rightarrow> string option \<Rightarrow> string option \<Rightarrow> db_error + string" where
  "task_constraints title status priority =
     (case title of None \<Rightarrow> Inl NotNullViolation
      | Some s \<Rightarrow>
          if status_check status \<and> priority_check priority then Inr s
          else Inl CheckViolation)"

section \<open>Task store (models/Task.js)\<close>

text \<open>
  \<open>INSERT INTO tasks (title, description, status, priority, user_id) ... RETURNING *\<close>.
  The sequence moves on whether or not the row is accepted.
\<close>

definition insert_task ::
  "nat \<Rightarrow> db \<Rightarrow> string option \<Rightarrow> string option \<Rightarrow> string option \<Rightarrow> string option
     \<Rightarrow> int \<Rightarrow> (db_error + task) \<times> db" where
  "insert_task now d title description status priority user_id =
     (let d' = d\<lparr>tasks_id_seq := tasks_id_seq d + 1\<rparr>;
          row =
            and_then (varchar 255 title) (\<lambda>title'.
            and_then (varchar 50 status) (\<lambda>status'.
            and_then (varchar 50 priority) (\<lambda>priority'.
            and_then (task_constraints title' status' priority') (\<lambda>s.
              if user_id \<in> set (map u_id (users d))
              then Inr \<lparr>t_id = tasks_id_seq d, t_title = s, t_description = description,
                         t_status = status', t_priority = priority', t_user_id = user_id,
                         t_created_at = now, t_updated_at = now\<rparr>
              else Inl ForeignKeyViolation))))
      in case row of
           Inl e \<Rightarrow> (Inl e, d')
         | Inr t \<Rightarrow> (Inr t, d'\<lparr>tasks := tasks d @ [t]\<rparr>))"

definition Task_create ::
  "nat \<Rightarrow> db \<Rightarrow> jsval \<Rightarrow> jsval \<Rightarrow> jsval \<Rightarrow> jsval \<Rightarrow> int \<Rightarrow> (db_error + task) \<times> db" where
  "Task_create now d title description status priority user_id =
     (let status = (if status = Undefined then Str ''pending'' else status);
          priority = (if priority = Undefined then Str ''medium'' else priority)
      in insert_task now d (sql_param title) (sql_param description) (sql_param status)
           (sql_param priority) user_id)"

text \<open>\<open>FROM tasks t JOIN users u ON t.user_id = u.id\<close>.\<close>

definition join_users :: "db \<Rightarrow> task_view list" where
  "join_users d =
     concat (map (\<lambda>t. map (\<lambda>u. task.extend t (task_view.fields (u_name u) (u_email u)))
                        (filter (\<lambda>u. t_user_id t = u_id u) (users d)))
                 (tasks d))"

definition Task_findAll :: "db \<Rightarrow> int \<Rightarrow> bool \<Rightarrow> task_view list" where
  "Task_findAll d userId isAdmin =
     (let rows = (if \<not> isAdmin then filter (\<lambda>t. t_user_id t = userId) (join_users d)
                  else join_users d)
      in order_by_desc t_created_at rows)"

definition Task_findById :: "db \<Rightarrow> int \<Rightarrow> int \<Rightarrow> bool \<Rightarrow> task_view option" where
  "Task_findById d id' userId isAdmin =
     (let rows = filter (\<lambda>t. t_id t = id') (join_users d);
          rows = (if \<not> isAdmin then filter (\<lambda>t. t_user_id t = userId) rows else rows)
      in rows0 rows)"

text \<open>
  The \<open>SET\<close> list that \<open>Task.update\<close> builds: one assignment for each field that is
  not \<open>undefined\<close>, and \<open>updated_at = CURRENT_TIMESTAMP\<close>. The new row must pass the
  constraints of the table.
\<close>

definition set_task :: "nat \<Rightarrow> jsval \<Rightarrow> jsval \<Rightarrow> jsval \<Rightarrow> jsval \<Rightarrow> task \<Rightarrow> db_error + task" where
  "set_task now title description status priority t =
     and_then (if title \<noteq> Undefined then varchar 255 (sql_param title)
               else Inr (Some (t_title t))) (\<lambda>title'.
     and_then (if status \<noteq> Undefined then varchar 50 (sql_param status)
               else Inr (t_status t)) (\<lambda>status'.
     and_then (if priority \<noteq> Undefined then varchar 50 (sql_param priority)
               else Inr (t_priority t)) (\<lambda>priority'.
     and_then (task_constraints title' status' priority') (\<lambda>s.
       Inr (t\<lparr>t_title := s,
              t_description :=
                (if description \<noteq> Undefined then sql_param description else t_description t),
              t_status := status', t_priority := priority', t_updated_at := now\<rparr>)))))"

text \<open>
  \<open>UPDATE tasks SET ... WHERE ... RETURNING *\<close> over the table: the new table and the
  returned rows, or the error of the first row that is rejected (then nothing is written).
\<close>

fun update_rows ::
  "('r \<Rightarrow> bool) \<Rightarrow> ('r \<Rightarrow> db_error + 'r) \<Rightarrow> 'r list \<Rightarrow> db_error + ('r list \<times> 'r list)" where
  "update_rows wh upd [] = Inr ([], [])"
| "update_rows wh upd (r # rs) =
     (if wh r then
        and_then (upd r) (\<lambda>r'.
        and_then (update_rows wh upd rs) (\<lambda>(tab, ret). Inr (r' # tab, r' # ret)))
      else and_then (update_rows wh upd rs) (\<lambda>(tab, ret). Inr (r # tab, ret)))"

text \<open>
  \<open>Task.update\<close> returns \<open>null\<close> when the request has none of the four fields, and
  \<open>rows[0]\<close> otherwise, which is \<open>undefined\<close> when no row matched. The callers test
  the result with \<open>!task\<close> only; both are \<open>None\<close> here.
\<close>

definition Task_update ::
  "nat \<Rightarrow> db \<Rightarrow> int \<Rightarrow> int \<Rightarrow> bool \<Rightarrow> jsval \<Rightarrow> jsval \<Rightarrow> jsval \<Rightarrow> jsval
     \<Rightarrow> (db_error + task option) \<times> db" where
  "Task_update now d id' userId isAdmin title description status priority =
     (if title = Undefined \<and> description = Undefined \<and> status = Undefined
         \<and> priority = Undefined
      then (Inr None, d)
      else
        let wh = (if \<not> isAdmin then (\<lambda>t. t_id t = id' \<and> t_user_id t = userId)
                  else (\<lambda>t. t_id t = id'))
        in case update_rows wh (set_task now title description status priority) (tasks d) of
             Inl e \<Rightarrow> (Inl e, d)
           | Inr (tab, ret) \<Rightarrow> (Inr (rows0 ret), d\<lparr>tasks := tab\<rparr>))"

definition Task_delete :: "db \<Rightarrow> int \<Rightarrow> int \<Rightarrow> bool \<Rightarrow> int option \<times> db" where
  "Task_delete d id' userId isAdmin =
     (let wh = (if \<not> isAdmin then (\<lambda>t. t_id t = id' \<and> t_user_id t = userId)
                else (\<lambda>t. t_id t = id'))
      in (rows0 (map t_id (filter wh (tasks d))),
          d\<lparr>tasks := filter (\<lambda>t. \<not> wh t) (tasks d)\<rparr>))"

record stats =
  total :: nat
  pending :: nat
  in_progress :: nat
  completed :: nat

definition Task_getStats :: "db \<Rightarrow> int \<Rightarrow> bool \<Rightarrow> stats" where
  "Task_getStats d userId isAdmin =
     (let rows = (if \<not> isAdmin then filter (\<lambda>t. t_user_id t = userId) (tasks d)
                  else tasks d)
      in \<lparr>total = length rows,
          pending = length (filter (\<lambda>t. t_status t = Some ''pending'') rows),
          in_progress = length (filter (\<lambda>t. t_status t = Some ''in_progress'') rows),
          completed = length (filter (\<lambda>t. t_status t = Some ''completed'') rows)\<rparr>)"

section \<open>Task controllers\<close>

text \<open>\<open>req.user\<close>, the principal that the token carried.\<close>

record principal =
  p_id :: int
  p_role :: string

text \<open>
  What a controller sends: the HTTP status and the JSON envelope. \<open>fault\<close> is the
  \<open>error\<close> member of a 500 response.
\<close>

record 'a response =
  status_code :: nat
  success :: bool
  message :: "string option"
  data :: "'a option"
  fault :: "db_error option"

definition createTask ::
  "nat \<Rightarrow> db \<Rightarrow> principal \<Rightarrow> jsval \<Rightarrow> jsval \<Rightarrow> jsval \<Rightarrow> jsval \<Rightarrow> task response \<times> db" where
  "createTask now d req_user title description status priority =
     (let userId = p_id req_user
      in case Task_create now d title description status priority userId of
           (Inr task, d') \<Rightarrow>
             (\<lparr>status_code = 201, success = True,
               message = Some ''Task created successfully'', data = Some task,
               fault = None\<rparr>, d')
         | (Inl e, d') \<Rightarrow>
             (\<lparr>status_code = 500, success = False,
               message = Some ''Failed to create task'', data = None, fault = Some e\<rparr>, d'))"

definition getAllTasks :: "db \<Rightarrow> principal \<Rightarrow> (task_view list \<times> nat) response" where
  "getAllTasks d req_user =
     (let userId = p_id req_user;
          isAdmin = (p_role req_user = ''admin'');
          tasks = Task_findAll d userId isAdmin
      in \<lparr>status_code = 200, success = True, message = None,
          data = Some (tasks, length tasks), fault = None\<rparr>)"

definition getTaskById :: "db \<Rightarrow> principal \<Rightarrow> int \<Rightarrow> task_view response" where
  "getTaskById d req_user id' =
     (let userId = p_id req_user;
          isAdmin = (p_role req_user = ''admin'')
      in case Task_findById d id' userId isAdmin of
           None \<Rightarrow>
             \<lparr>status_code = 404, success = False, message = Some ''Task not found'',
              data = None, fault = None\<rparr>
         | Some task \<Rightarrow>
             \<lparr>status_code = 200, success = True, message = None, data = Some task,
              fault = None\<rparr>)"

definition updateTask ::
  "nat \<Rightarrow> db \<Rightarrow> principal \<Rightarrow> int \<Rightarrow> jsval \<Rightarrow> jsval \<Rightarrow> jsval \<Rightarrow> jsval \<Rightarrow> task response \<times> db" where
  "updateTask now d req_user id' title description status priority =
     (let userId = p_id req_user;
          isAdmin = (p_role req_user = ''admin'')
      in case Task_update now d id' userId isAdmin title description status priority of
           (Inr None, d') \<Rightarrow>
             (\<lparr>status_code = 404, success = False,
               message = Some ''Task not found or you do not have permission to update it'',
               data = None, fault = None\<rparr>, d')
         | (Inr (Some task), d') \<Rightarrow>
             (\<lparr>status_code = 200, success = True,
               message = Some ''Task updated successfully'', data = Some task,
               fault = None\<rparr>, d')
         | (Inl e, d') \<Rightarrow>
             (\<lparr>status_code = 500, success = False,
               message = Some ''Failed to update task'', data = None, fault = Some e\<rparr>, d'))"


definition getTaskStats :: "db \<Rightarrow> principal \<Rightarrow> stats response" where
  "getTaskStats d req_user =
     (let userId = p_id req_user;
          isAdmin = (p_role req_user = ''admin'');
          stats = Task_getStats d userId isAdmin
      in \<lparr>status_code = 200, success = True, message = None, data = Some stats,
          fault = None\<rparr>)"

section \<open>User store (models/User.js)\<close>

text \<open>
  A row as the driver hands it to JavaScript: an object with one member per selected
  column, in the order of the select list.
\<close>

datatype sqlval = SqlNull | SqlInt int | SqlText string | SqlTime nat

fun text_or_null :: "string option \<Rightarrow> sqlval" where
  "text_or_null None = SqlNull"
| "text_or_null (Some s) = SqlText s"

text \<open>\<open>SELECT *\<close> on \<open>users\<close>: every column of the table.\<close>

definition user_columns :: "user \<Rightarrow> (string \<times> sqlval) list" where
  "user_columns u =
     [(''id'', SqlInt (u_id u)), (''name'', SqlText (u_name u)),
      (''email'', SqlText (u_email u)), (''password'', SqlText (u_password u)),
      (''role'', text_or_null (u_role u)), (''created_at'', SqlTime (u_created_at u)),
      (''updated_at'', SqlTime (u_updated_at u))]"

text \<open>A select list or \<open>RETURNING\<close> list of column names.\<close>

definition select_columns :: "string list \<Rightarrow> user \<Rightarrow> (string \<times> sqlval) list" where
  "select_columns cols u =
     List.map_filter (\<lambda>c. map_option (Pair c) (map_of (user_columns u) c)) cols"

definition user_constraints ::
  "string option \<Rightarrow> string option \<Rightarrow> string option \<Rightarrow> string option
     \<Rightarrow> db_error + (string \<times> string \<times> string)" where
  "user_constraints name email password role =
     (case (name, email, password) of
        (Some n, Some e, Some p) \<Rightarrow>
          if role_check role then Inr (n, e, p) else Inl CheckViolation
      | _ \<Rightarrow> Inl NotNullViolation)"

text \<open>
  \<open>User.create\<close>. \<open>bcrypt_hash\<close> stands for \<open>bcrypt.hash\<close> of the bcryptjs
  library with the salt it draws; its second argument is the cost. The plaintext
  reaches the table through it only.
\<close>

definition User_create ::
  "(string \<Rightarrow> nat \<Rightarrow> string) \<Rightarrow> nat \<Rightarrow> db \<Rightarrow> jsval \<Rightarrow> jsval \<Rightarrow> string \<Rightarrow> jsval
     \<Rightarrow> (db_error + (string \<times> sqlval) list) \<times> db" where
  "User_create bcrypt_hash now d name email password role =
     (let role = (if role = Undefined then Str ''user'' else role);
          hashedPassword = bcrypt_hash password 10;
          d' = d\<lparr>users_id_seq := users_id_seq d + 1\<rparr>;
          row =
            and_then (varchar 255 (sql_param name)) (\<lambda>name'.
            and_then (varchar 255 (sql_param email)) (\<lambda>email'.
            and_then (varchar 255 (Some hashedPassword)) (\<lambda>password'.
            and_then (varchar 50 (sql_param role)) (\<lambda>role'.
            and_then (user_constraints name' email' password' role') (\<lambda>(n, e, p).
              if e \<in> set (map u_email (users d)) then Inl UniqueViolation
              else Inr \<lparr>u_id = users_id_seq d, u_name = n, u_email = e, u_password = p,
                         u_role = role', u_created_at = now, u_updated_at = now\<rparr>)))))
      in case row of
           Inl e \<Rightarrow> (Inl e, d')
         | Inr u \<Rightarrow>
             (Inr (select_columns [''id'', ''name'', ''email'', ''role'', ''created_at''] u),
              d'\<lparr>users := users d @ [u]\<rparr>))"




definition set_user :: "nat \<Rightarrow> jsval \<Rightarrow> jsval \<Rightarrow> jsval \<Rightarrow> user \<Rightarrow> db_error + user" where
  "set_user now name email role u =
     and_then (if name \<noteq> Undefined then varchar 255 (sql_param name)
               else Inr (Some (u_name u))) (\<lambda>name'.
     and_then (if email \<noteq> Undefined then varchar 255 (sql_param email)
               else Inr (Some (u_email u))) (\<lambda>email'.
     and_then (if role \<noteq> Undefined then varchar 50 (sql_param role)
               else Inr (u_role u)) (\<lambda>role'.
     and_then (user_constraints name' email' (Some (u_password u)) role') (\<lambda>(n, e, p).
       Inr (u\<lparr>u_name := n, u_email := e, u_role := role', u_updated_at := now\<rparr>)))))"

definition User_update ::
  "nat \<Rightarrow> db \<Rightarrow> int \<Rightarrow> jsval \<Rightarrow> jsval \<Rightarrow> jsval
     \<Rightarrow> (db_error + (string \<times> sqlval) list option) \<times> db" where
  "User_update now d id' name email role =
     (if name = Undefined \<and> email = Undefined \<and> role = Undefined then (Inr None, d)
      else
        case update_rows (\<lambda>u. u_id u = id') (set_user now name email role) (users d) of
          Inl e \<Rightarrow> (Inl e, d)
        | Inr (tab, ret) \<Rightarrow>
            if \<not> distinct (map u_email tab) then (Inl UniqueViolation, d)
            else
              (Inr (rows0 (map (select_columns
                                  [''id'', ''name'', ''email'', ''role'', ''updated_at''])
                             ret)),
               d\<lparr>users := tab\<rparr>))"

text \<open>
  \<open>DELETE FROM users WHERE id = $1 RETURNING id\<close>; the tasks of a deleted user go
  with it (\<open>ON DELETE CASCADE\<close>).
\<close>

definition User_delete :: "db \<Rightarrow> int \<Rightarrow> int option \<times> db" where
  "User_delete d id' =
     (rows0 (map u_id (filter (\<lambda>u. u_id u = id') (users d))),
      d\<lparr>users := filter (\<lambda>u. u_id u \<noteq> id') (users d),
        tasks := filter (\<lambda>t. t_user_id t \<noteq> id') (tasks d)\<rparr>)"

section \<open>What the schema guarantees\<close>

text \<open>
  The state that the constraints of the migration maintain: primary keys and emails
  are unique, every task refers to an existing user and passes the \<open>CHECK\<close>s, and the
  sequences are ahead of the ids in use.
\<close>

definition db_ok :: "db \<Rightarrow> bool" where
  "db_ok d \<longleftrightarrow>
     distinct (map t_id (tasks d)) \<and> distinct (map u_id (users d))
     \<and> distinct (map u_email (users d))
     \<and> list_all (\<lambda>t. t_user_id t \<in> set (map u_id (users d)) \<and> t_id t < tasks_id_seq d
                     \<and> status_check (t_status t) \<and> priority_check (t_priority t)) (tasks d)
     \<and> list_all (\<lambda>u. u_id u < users_id_seq d \<and> role_check (u_role u)) (users d)"

definition empty_db :: db where
  "empty_db = \<lparr>tasks = [], users = [], tasks_id_seq = 1, users_id_seq = 1\<rparr>"

text \<open>
  The rule of the specification, in its words: permit if the principal's role is
  administrator, or the principal's id is the owner id of the resource.
\<close>

definition permit_spec :: "principal \<Rightarrow> task \<Rightarrow> bool" where
  "permit_spec p t \<longleftrightarrow> p_role p = ''admin'' \<or> p_id p = t_user_id t"

section \<open>A small database\<close>

text \<open>Three users, one of them without tasks, and the principals of their tokens.\<close>

definition alice :: user where
  "alice = \<lparr>u_id = 1, u_name = ''A'', u_email = ''a@x.com'', u_password = ''$2a$10$hashA'',
            u_role = Some ''user'', u_created_at = 1, u_updated_at = 1\<rparr>"

definition bob :: user where
  "bob = \<lparr>u_id = 2, u_name = ''B'', u_email = ''b@x.com'', u_password = ''$2a$10$hashB'',
          u_role = Some ''admin'', u_created_at = 2, u_updated_at = 2\<rparr>"

definition carol :: user where
  "carol = \<lparr>u_id = 3, u_name = ''C'', u_email = ''c@x.com'', u_password = ''$2a$10$hashC'',
            u_role = Some ''admin'', u_created_at = 3, u_updated_at = 3\<rparr>"

definition p_alice :: principal where
  "p_alice = \<lparr>p_id = 1, p_role = ''user''\<rparr>"

definition p_bob :: principal where
  "p_bob = \<lparr>p_id = 2, p_role = ''admin''\<rparr>"

definition p_carol :: principal where
  "p_carol = \<lparr>p_id = 3, p_role = ''admin''\<rparr>"

definition db0 :: db where
  "db0 = \<lparr>tasks = [], users = [alice, bob, carol], tasks_id_seq = 1, users_id_seq = 4\<rparr>"

definition task1 :: task where
  "task1 = \<lparr>t_id = 1, t_title = ''Write report'', t_description = Some ''Q3'',
            t_status = Some ''pending'', t_priority = Some ''medium'', t_user_id = 1,
            t_created_at = 10, t_updated_at = 10\<rparr>"

definition task2 :: task where
  "task2 = \<lparr>t_id = 2, t_title = ''Review'', t_description = None,
            t_status = Some ''completed'', t_priority = Some ''high'', t_user_id = 2,
            t_created_at = 20, t_updated_at = 20\<rparr>"

definition db1 :: db where
  "db1 = \<lparr>tasks = [task1], users = [alice, bob, carol], tasks_id_seq = 2,
          users_id_seq = 4\<rparr>"

definition db2 :: db where
  "db2 = \<lparr>tasks = [task1, task2], users = [alice, bob, carol], tasks_id_seq = 3,
          users_id_seq = 4\<rparr>"

definition created1 :: "task response" where
  "created1 = \<lparr>status_code = 201, success = True,
               message = Some ''Task created successfully'', data = Some task1,
               fault = None\<rparr>"

text \<open>\<open>task1\<close> after its owner marks it completed at time 30.\<close>

definition task1_done :: task where
  "task1_done = \<lparr>t_id = 1, t_title = ''Write report'', t_description = Some ''Q3'',
                 t_status = Some ''completed'', t_priority = Some ''medium'', t_user_id = 1,
                 t_created_at = 10, t_updated_at = 30\<rparr>"

definition updated1 :: "task response" where
  "updated1 = \<lparr>status_code = 200, success = True,
               message = Some ''Task updated successfully'', data = Some task1_done,
               fault = None\<rparr>"

definition db1_done :: db where
  "db1_done = \<lparr>tasks = [task1_done], users = [alice, bob, carol], tasks_id_seq = 2,
               users_id_seq = 4\<rparr>"

definition db2_done :: db where
  "db2_done = \<lparr>tasks = [task1_done, task2], users = [alice, bob, carol],
               tasks_id_seq = 3, users_id_seq = 4\<rparr>"






text \<open>The 404 response of \<open>updateTask\<close>.\<close>

definition not_found_update :: "task response" where
  "not_found_update =
     \<lparr>status_code = 404, success = False,
      message = Some ''Task not found or you do not have permission to update it'',
      data = None, fault = None\<rparr>"

declare varchar.simps [simp del]

section \<open>Auxiliary facts\<close>

subsection \<open>Results, columns and row lists\<close>

lemma varchar_short: "length s \<le> n \<Longrightarrow> varchar n (Some s) = Inr (Some s)"
  by (simp add: varchar.simps)

lemma varchar_None: "varchar n None = Inr None"
  by (simp add: varchar.simps)

lemma and_then_Inr_iff:
  "and_then r f = Inr y \<longleftrightarrow> (\<exists>x. r = Inr x \<and> f x = Inr y)"
  by (cases r) (simp_all add: and_then_def)

lemma task_constraints_Inr:
  "task_constraints title status priority = Inr s \<longleftrightarrow>
     title = Some s \<and> status_check status \<and> priority_check priority"
  by (auto simp: task_constraints_def split: option.splits)

lemma rows0_map: "rows0 (map f xs) = map_option f (rows0 xs)"
  by (cases xs) (simp_all add: rows0_def)

lemma rows0_single: "rows0 [x] = Some x"
  by (simp add: rows0_def)

lemma filter_key_absent:
  "k \<notin> set (map f xs) \<Longrightarrow> filter (\<lambda>y. k = f y) xs = []"
  by (induction xs) auto

lemma filter_key_unique:
  "distinct (map f xs) \<Longrightarrow> x \<in> set xs \<Longrightarrow> filter (\<lambda>y. f x = f y) xs = [x]"
proof (induction xs)
  case Nil
  then show ?case by simp
next
  case (Cons a xs)
  show ?case
  proof (cases "a = x")
    case True
    with Cons.prems have "f x \<notin> set (map f xs)" by simp
    then have "filter (\<lambda>y. f x = f y) xs = []" by (rule filter_key_absent)
    with True show ?thesis by simp
  next
    case False
    with Cons.prems have "x \<in> set xs" "f a \<noteq> f x" by auto
    with Cons show ?thesis by simp
  qed
qed

subsection \<open>The join with the owners\<close>

lemma truncate_extend: "task.truncate (task.extend t m) = t"
  by (simp add: task.truncate_def task.extend_def)

lemma truncate_selectors:
  "t_id (task.truncate v) = t_id v"
  "t_title (task.truncate v) = t_title v"
  "t_description (task.truncate v) = t_description v"
  "t_status (task.truncate v) = t_status v"
  "t_priority (task.truncate v) = t_priority v"
  "t_user_id (task.truncate v) = t_user_id v"
  "t_created_at (task.truncate v) = t_created_at v"
  "t_updated_at (task.truncate v) = t_updated_at v"
  by (simp_all add: task.truncate_def)

lemma join_rows_truncate:
  assumes "distinct (map u_id us)"
    and "list_all (\<lambda>t. t_user_id t \<in> set (map u_id us)) ts"
  shows "map task.truncate
           (concat (map (\<lambda>t. map (\<lambda>u. task.extend t
                                       (task_view.fields (u_name u) (u_email u)))
                                (filter (\<lambda>u. t_user_id t = u_id u) us)) ts)) = ts"
  using assms(2)
proof (induction ts)
  case Nil
  then show ?case by simp
next
  case (Cons t ts)
  then obtain u where u: "u \<in> set us" "t_user_id t = u_id u" by auto
  with assms(1) have "filter (\<lambda>y. u_id u = u_id y) us = [u]"
    by (intro filter_key_unique)
  with u Cons show ?case by (simp add: truncate_extend)
qed

lemma join_users_truncate: "db_ok d \<Longrightarrow> map task.truncate (join_users d) = tasks d"
  unfolding join_users_def
  by (rule join_rows_truncate) (auto simp: db_ok_def list_all_iff)

subsection \<open>Insertion\<close>

lemma insert_task_Inr:
  assumes "insert_task now d title description status priority user_id = (Inr t, d')"
  shows "t_id t = tasks_id_seq d \<and> t_user_id t = user_id \<and> t_description t = description
       \<and> varchar 255 title = Inr (Some (t_title t))
       \<and> varchar 50 status = Inr (t_status t) \<and> varchar 50 priority = Inr (t_priority t)
       \<and> status_check (t_status t) \<and> priority_check (t_priority t)
       \<and> user_id \<in> set (map u_id (users d))
       \<and> t_created_at t = now \<and> t_updated_at t = now
       \<and> d' = d\<lparr>tasks_id_seq := tasks_id_seq d + 1, tasks := tasks d @ [t]\<rparr>"
  using assms
  by (auto simp: insert_task_def Let_def and_then_Inr_iff task_constraints_Inr
      split: sum.splits if_splits)

lemma truncate_filter_owner:
  "map task.truncate (filter (\<lambda>v. t_user_id v = k) vs)
     = filter (\<lambda>t. t_user_id t = k) (map task.truncate vs)"
  by (induction vs) (simp_all add: truncate_selectors)

lemma order_by_desc_mset: "mset (order_by_desc k rows) = mset rows"
  by (simp add: order_by_desc_def)

lemma order_by_desc_sorted:
  "sorted_wrt (\<lambda>a b. k b \<le> k a) (order_by_desc k rows)"
proof -
  have "sorted (map k (sort_key k rows))" by (rule sorted_sort_key)
  then have "sorted_wrt (\<lambda>a b. k a \<le> k b) (sort_key k rows)"
    by (simp add: sorted_wrt_map)
  then show ?thesis
    by (simp add: order_by_desc_def sorted_wrt_rev)
qed

lemma Task_findAll_truncate:
  assumes "db_ok d"
  shows "mset (map task.truncate (Task_findAll d userId isAdmin))
         = mset (if isAdmin then tasks d else filter (\<lambda>t. t_user_id t = userId) (tasks d))"
proof -
  define rows where
    "rows = (if \<not> isAdmin then filter (\<lambda>t. t_user_id t = userId) (join_users d)
             else join_users d)"
  have sel: "map task.truncate rows
             = (if isAdmin then tasks d else filter (\<lambda>t. t_user_id t = userId) (tasks d))"
    using join_users_truncate [OF assms] by (simp add: rows_def truncate_filter_owner)
  have "mset (map task.truncate (order_by_desc t_created_at rows))
        = image_mset task.truncate (mset (order_by_desc t_created_at rows))"
    by simp
  also have "\<dots> = image_mset task.truncate (mset rows)"
    by (simp only: order_by_desc_mset)
  also have "\<dots> = mset (map task.truncate rows)"
    by simp
  finally show ?thesis
    unfolding sel by (simp add: Task_findAll_def Let_def rows_def)
qed

subsection \<open>Updating rows\<close>

lemma update_rows_no_hit:
  "\<forall>r\<in>set rs. \<not> wh r \<Longrightarrow> update_rows wh upd rs = Inr (rs, [])"
  by (induction rs) (simp_all add: and_then_def)

lemma update_rows_Inr:
  "update_rows wh upd rs = Inr (tab, ret) \<Longrightarrow>
     list_all2 (\<lambda>r r'. if wh r then upd r = Inr r' else r' = r) rs tab
     \<and> list_all2 (\<lambda>r r'. upd r = Inr r') (filter wh rs) ret"
proof (induction rs arbitrary: tab ret)
  case Nil
  then show ?case by simp
next
  case (Cons r rs)
  show ?case
  proof (cases "wh r")
    case True
    with Cons.prems obtain r' tab' ret' where
      "upd r = Inr r'" "update_rows wh upd rs = Inr (tab', ret')"
      "tab = r' # tab'" "ret = r' # ret'"
      by (auto simp: and_then_Inr_iff)
    with Cons.IH True show ?thesis by simp
  next
    case False
    with Cons.prems obtain tab' where
      "update_rows wh upd rs = Inr (tab', ret)" "tab = r # tab'"
      by (auto simp: and_then_Inr_iff)
    with Cons.IH False show ?thesis by simp
  qed
qed

text \<open>With a key that the condition fixes, at most one row is written.\<close>

lemma update_rows_key:
  assumes "distinct (map k rs)" and "t \<in> set rs" and "wh t"
    and "\<And>r. wh r \<Longrightarrow> k r = k t"
  shows "update_rows wh upd rs =
           (case upd t of Inl e \<Rightarrow> Inl e
            | Inr t' \<Rightarrow> Inr (map (\<lambda>r. if k r = k t then t' else r) rs, [t']))"
  using assms(1,2)
proof (induction rs)
  case Nil
  then show ?case by simp
next
  case (Cons r rs)
  show ?case
  proof (cases "r = t")
    case True
    with Cons.prems have "k t \<notin> k ` set rs" by simp
    then have "\<forall>x\<in>set rs. k x \<noteq> k t" by (metis imageI)
    then have rest: "\<forall>x\<in>set rs. \<not> wh x"
      using assms(4) by blast
    have same: "map (\<lambda>x. if k x = k t then y else x) rs = rs" for y
      using \<open>\<forall>x\<in>set rs. k x \<noteq> k t\<close> by (induction rs) auto
    from True assms(3) update_rows_no_hit [OF rest, of upd] same show ?thesis
      by (simp add: and_then_def split: sum.splits)
  next
    case False
    with Cons.prems have mem: "t \<in> set rs" and "k r \<noteq> k t" by auto
    then have "\<not> wh r" using assms(4) by blast
    with Cons.IH mem Cons.prems(1) \<open>k r \<noteq> k t\<close> show ?thesis
      by (simp add: and_then_def split: sum.splits)
  qed
qed

subsection \<open>Rows that pass the constraints\<close>

lemma set_task_Inr:
  assumes "set_task now title description status priority t = Inr t'"
  shows "t_id t' = t_id t \<and> t_user_id t' = t_user_id t \<and> t_created_at t' = t_created_at t
       \<and> t_updated_at t' = now
       \<and> (if title = Undefined then t_title t' = t_title t
          else varchar 255 (sql_param title) = Inr (Some (t_title t')))
       \<and> t_description t'
           = (if description = Undefined then t_description t else sql_param description)
       \<and> (if status = Undefined then t_status t' = t_status t
          else varchar 50 (sql_param status) = Inr (t_status t'))
       \<and> (if priority = Undefined then t_priority t' = t_priority t
          else varchar 50 (sql_param priority) = Inr (t_priority t'))
       \<and> status_check (t_status t') \<and> priority_check (t_priority t')"
  using assms
  by (auto simp: set_task_def and_then_Inr_iff task_constraints_Inr split: if_splits)

subsection \<open>Single rows of the task table\<close>

lemma filter_id_hit:
  assumes "distinct (map t_id ts)" and "t \<in> set ts" and "P t"
  shows "filter (\<lambda>r. t_id r = t_id t \<and> P r) ts = [t]"
proof -
  have "filter (\<lambda>r. t_id t = t_id r) ts = [t]"
    using assms(1,2) by (rule filter_key_unique)
  moreover have "filter (\<lambda>r. t_id r = t_id t \<and> P r) ts
                 = filter P (filter (\<lambda>r. t_id t = t_id r) ts)"
    unfolding filter_filter by (rule filter_cong) auto
  ultimately show ?thesis using assms(3) by simp
qed


lemma truncate_filter_sel:
  "map task.truncate (filter (\<lambda>v. P (t_id v) (t_user_id v)) vs)
     = filter (\<lambda>t. P (t_id t) (t_user_id t)) (map task.truncate vs)"
  by (induction vs) (simp_all add: truncate_selectors)

lemma Task_findById_truncate:
  assumes "db_ok d"
  shows "map_option task.truncate (Task_findById d i userId isAdmin)
         = rows0 (filter (\<lambda>t. t_id t = i \<and> (isAdmin \<or> t_user_id t = userId)) (tasks d))"
proof -
  have "map task.truncate
          (if \<not> isAdmin
           then filter (\<lambda>t. t_user_id t = userId) (filter (\<lambda>t. t_id t = i) (join_users d))
           else filter (\<lambda>t. t_id t = i) (join_users d))
        = filter (\<lambda>t. t_id t = i \<and> (isAdmin \<or> t_user_id t = userId)) (tasks d)"
    using join_users_truncate [OF assms]
      truncate_filter_sel [of "\<lambda>a b. a = i \<and> b = userId" "join_users d"]
      truncate_filter_sel [of "\<lambda>a b. a = i" "join_users d"]
    by simp
  then show ?thesis
    by (simp add: Task_findById_def Let_def rows0_map [symmetric])
qed

lemma Task_findById_hit:
  assumes "db_ok d" and "t \<in> set (tasks d)" and "isAdmin \<or> t_user_id t = userId"
  shows "\<exists>v. Task_findById d (t_id t) userId isAdmin = Some v \<and> task.truncate v = t"
proof -
  from assms(1) have "distinct (map t_id (tasks d))" by (simp add: db_ok_def)
  from filter_id_hit [OF this assms(2), of "\<lambda>r. isAdmin \<or> t_user_id r = userId"] assms(3)
  have "map_option task.truncate (Task_findById d (t_id t) userId isAdmin) = Some t"
    by (simp add: Task_findById_truncate [OF assms(1)] rows0_single)
  then show ?thesis by auto
qed




lemma Task_update_none:
  "title = Undefined \<and> description = Undefined \<and> status = Undefined \<and> priority = Undefined
   \<Longrightarrow> Task_update now d i userId isAdmin title description status priority = (Inr None, d)"
  by (simp add: Task_update_def)

lemma Task_update_miss:
  assumes "\<not> (\<exists>t\<in>set (tasks d). t_id t = i \<and> (isAdmin \<or> t_user_id t = userId))"
  shows "Task_update now d i userId isAdmin title description status priority = (Inr None, d)"
proof -
  let ?wh = "if \<not> isAdmin then (\<lambda>t. t_id t = i \<and> t_user_id t = userId) else (\<lambda>t. t_id t = i)"
  from assms have "\<forall>t\<in>set (tasks d). \<not> ?wh t" by auto
  from update_rows_no_hit [OF this]
  show ?thesis by (simp add: Task_update_def Let_def rows0_def)
qed

lemma Task_update_hit:
  assumes "db_ok d" and "t \<in> set (tasks d)" and "t_id t = i"
    and "isAdmin \<or> t_user_id t = userId"
    and "\<not> (title = Undefined \<and> description = Undefined \<and> status = Undefined
            \<and> priority = Undefined)"
  shows "Task_update now d i userId isAdmin title description status priority =
           (case set_task now title description status priority t of
              Inl e \<Rightarrow> (Inl e, d)
            | Inr t' \<Rightarrow>
                (Inr (Some t'),
                 d\<lparr>tasks := map (\<lambda>r. if t_id r = i then t' else r) (tasks d)\<rparr>))"
proof -
  let ?wh = "if \<not> isAdmin then (\<lambda>t. t_id t = i \<and> t_user_id t = userId) else (\<lambda>t. t_id t = i)"
  from assms(1) have dist: "distinct (map t_id (tasks d))" by (simp add: db_ok_def)
  have hit: "?wh t" using assms(3,4) by auto
  have key: "\<And>r. ?wh r \<Longrightarrow> t_id r = t_id t" using assms(3) by (auto split: if_splits)
  note upd = update_rows_key [of t_id "tasks d" t ?wh, OF dist assms(2) hit key]
  show ?thesis
    using assms(5) assms(3)
    by (cases "set_task now title description status priority t")
       (simp_all add: Task_update_def Let_def upd rows0_single del: if_not_P)
qed

subsection \<open>The operations keep the guarantees of the schema\<close>

lemma db_ok_empty_db: "db_ok empty_db"
  by (simp add: db_ok_def empty_db_def)

lemma db_ok_insert_task:
  assumes "db_ok d"
  shows "db_ok (snd (insert_task now d title description status priority user_id))"
proof (cases "fst (insert_task now d title description status priority user_id)")
  case (Inl e)
  then have "snd (insert_task now d title description status priority user_id)
             = d\<lparr>tasks_id_seq := tasks_id_seq d + 1\<rparr>"
    by (auto simp: insert_task_def Let_def split: sum.splits)
  with assms show ?thesis
    by (auto simp: db_ok_def list_all_iff)
next
  case (Inr t)
  then have "insert_task now d title description status priority user_id
             = (Inr t, snd (insert_task now d title description status priority user_id))"
    by (metis prod.collapse)
  note f = insert_task_Inr [OF this]
  from assms have "\<forall>r\<in>set (tasks d). t_id r < tasks_id_seq d"
    by (simp add: db_ok_def list_all_iff)
  with f have "t_id t \<notin> t_id ` set (tasks d)" by auto
  with f assms show ?thesis
    by (auto simp: db_ok_def list_all_iff)
qed

lemma snd_createTask:
  "snd (createTask now d p title description status priority)
     = snd (Task_create now d title description status priority (p_id p))"
  by (simp add: createTask_def Let_def split: prod.splits sum.splits)

lemma db_ok_createTask:
  "db_ok d \<Longrightarrow> db_ok (snd (createTask now d p title description status priority))"
  by (simp add: snd_createTask Task_create_def Let_def db_ok_insert_task)

lemma list_all2_same_map:
  "list_all2 (\<lambda>r r'. f r' = f r) xs ys \<Longrightarrow> map f ys = map f xs"
  by (induction rule: list_all2_induct) simp_all

lemma list_all2_transfer_all:
  "list_all2 R xs ys \<Longrightarrow> list_all P xs \<Longrightarrow> (\<And>x y. R x y \<Longrightarrow> P x \<Longrightarrow> Q y)
     \<Longrightarrow> list_all Q ys"
  by (induction rule: list_all2_induct) auto

lemma db_ok_Task_update:
  assumes "db_ok d"
  shows "db_ok (snd (Task_update now d i userId isAdmin title description status priority))"
proof (cases "title = Undefined \<and> description = Undefined \<and> status = Undefined
              \<and> priority = Undefined")
  case True
  with assms show ?thesis by (simp add: Task_update_def)
next
  case False
  let ?wh = "if \<not> isAdmin then (\<lambda>t. t_id t = i \<and> t_user_id t = userId) else (\<lambda>t. t_id t = i)"
  let ?upd = "set_task now title description status priority"
  show ?thesis
  proof (cases "update_rows ?wh ?upd (tasks d)")
    case (Inl e)
    with False assms show ?thesis by (simp add: Task_update_def Let_def)
  next
    case (Inr res)
    obtain tab ret where res: "res = (tab, ret)" by (cases res)
    with Inr have rel: "list_all2 (\<lambda>r r'. if ?wh r then ?upd r = Inr r' else r' = r) (tasks d) tab"
      using update_rows_Inr by blast
    have step: "t_id r' = t_id r \<and> t_user_id r' = t_user_id r
                \<and> (status_check (t_status r) \<and> priority_check (t_priority r)
                     \<longrightarrow> status_check (t_status r') \<and> priority_check (t_priority r'))"
      if "if ?wh r then ?upd r = Inr r' else r' = r" for r r'
    proof (cases "?wh r")
      case True
      with that have "?upd r = Inr r'" by simp
      from set_task_Inr [OF this] show ?thesis by simp
    next
      case False
      with that show ?thesis by simp
    qed
    from rel have ids: "map t_id tab = map t_id (tasks d)"
      by (intro list_all2_same_map) (erule list_all2_mono, use step in blast)
    let ?P = "\<lambda>t. t_user_id t \<in> set (map u_id (users d)) \<and> t_id t < tasks_id_seq d
                     \<and> status_check (t_status t) \<and> priority_check (t_priority t)"
    from assms have "list_all ?P (tasks d)" by (simp add: db_ok_def)
    with rel have "list_all ?P tab"
      by (rule list_all2_transfer_all) (use step in \<open>metis (no_types, lifting)\<close>)
    with ids assms have "db_ok (d\<lparr>tasks := tab\<rparr>)"
      by (simp add: db_ok_def)
    with False Inr res show ?thesis by (auto simp: Task_update_def Let_def)
  qed
qed

lemma db_ok_Task_delete:
  assumes "db_ok d"
  shows "db_ok (snd (Task_delete d i userId isAdmin))"
  using assms
  by (auto simp: Task_delete_def Let_def db_ok_def list_all_iff distinct_map_filter)

subsection \<open>The controllers on a single task\<close>

lemma permit_spec_unfold:
  "permit_spec p t \<longleftrightarrow> (p_role p = ''admin'') \<or> t_user_id t = p_id p"
  by (auto simp: permit_spec_def)

lemma getTaskById_hit:
  assumes "db_ok d" and "t \<in> set (tasks d)" and "permit_spec p t"
  shows "\<exists>v. getTaskById d p (t_id t) =
               \<lparr>status_code = 200, success = True, message = None, data = Some v,
                fault = None\<rparr> \<and> task.truncate v = t"
proof -
  from assms(3) have "(p_role p = ''admin'') \<or> t_user_id t = p_id p"
    by (simp add: permit_spec_unfold)
  from Task_findById_hit [OF assms(1,2) this]
  show ?thesis by (auto simp: getTaskById_def Let_def)
qed




lemma updateTask_none:
  assumes "title = Undefined \<and> description = Undefined \<and> status = Undefined
           \<and> priority = Undefined"
  shows "updateTask now d p i title description status priority = (not_found_update, d)"
  using Task_update_none [OF assms]
  by (simp add: updateTask_def Let_def not_found_update_def)

lemma updateTask_miss:
  assumes "\<not> (\<exists>t\<in>set (tasks d). t_id t = i \<and> permit_spec p t)"
  shows "updateTask now d p i title description status priority = (not_found_update, d)"
proof -
  from assms
  have "\<not> (\<exists>t\<in>set (tasks d). t_id t = i \<and> ((p_role p = ''admin'') \<or> t_user_id t = p_id p))"
    by (simp add: permit_spec_unfold)
  from Task_update_miss [OF this]
  show ?thesis by (simp add: updateTask_def Let_def not_found_update_def)
qed

lemma updateTask_hit:
  assumes "db_ok d" and "t \<in> set (tasks d)" and "t_id t = i" and "permit_spec p t"
    and "\<not> (title = Undefined \<and> description = Undefined \<and> status = Undefined
            \<and> priority = Undefined)"
  shows "updateTask now d p i title description status priority =
           (case set_task now title description status priority t of
              Inl e \<Rightarrow>
                (\<lparr>status_code = 500, success = False,
                  message = Some ''Failed to update task'', data = None, fault = Some e\<rparr>, d)
            | Inr t' \<Rightarrow>
                (\<lparr>status_code = 200, success = True,
                  message = Some ''Task updated successfully'', data = Some t',
                  fault = None\<rparr>,
                 d\<lparr>tasks := map (\<lambda>r. if t_id r = i then t' else r) (tasks d)\<rparr>))"
proof -
  from assms(4) have "(p_role p = ''admin'') \<or> t_user_id t = p_id p"
    by (simp add: permit_spec_unfold)
  from Task_update_hit [OF assms(1,2,3) this assms(5)]
  show ?thesis
    by (simp add: updateTask_def Let_def split: sum.splits)
qed

lemma set_task_accepts:
  assumes "status_check (t_status t)" and "priority_check (t_priority t)"
    and "title = Undefined \<or> (\<exists>s. title = Str s \<and> length s \<le> 255)"
    and "status = Undefined \<or> status = Null
         \<or> (\<exists>s. status = Str s \<and> s \<in> set [''pending'', ''in_progress'', ''completed''])"
    and "priority = Undefined \<or> priority = Null
         \<or> (\<exists>s. priority = Str s \<and> s \<in> set [''low'', ''medium'', ''high''])"
  shows "\<exists>t'. set_task now title description status priority t = Inr t'"
proof -
  from assms(3) obtain a where
    a: "(if title \<noteq> Undefined then varchar 255 (sql_param title) else Inr (Some (t_title t)))
        = Inr (Some a)"
    by (auto simp: varchar_short)
  from assms(1,4) obtain b where
    b: "(if status \<noteq> Undefined then varchar 50 (sql_param status) else Inr (t_status t))
        = Inr b" "status_check b"
    by (auto simp: varchar_short varchar_None status_check_def)
  from assms(2,5) obtain c where
    c: "(if priority \<noteq> Undefined then varchar 50 (sql_param priority)
         else Inr (t_priority t)) = Inr c" "priority_check c"
    by (auto simp: varchar_short varchar_None priority_check_def)
  show ?thesis
    unfolding set_task_def a b(1) c(1)
    using b(2) c(2) by (simp add: and_then_def task_constraints_def)
qed

subsection \<open>What an update leaves alone\<close>

lemma varchar_checked_status:
  assumes "varchar 50 (Some s) = Inr v" and "status_check v"
  shows "v = Some s"
proof (cases "length s \<le> 50")
  case True
  with assms(1) show ?thesis by (simp add: varchar_short)
next
  case False
  define u where "u = take 50 s"
  from False have len: "length u = 50" by (simp add: u_def)
  from False assms(1) have "v = Some u"
    by (simp add: varchar.simps u_def split: if_splits)
  with assms(2) have "length u < 50"
    by (auto simp: status_check_def)
  with len show ?thesis by simp
qed

lemma varchar_checked_priority:
  assumes "varchar 50 (Some s) = Inr v" and "priority_check v"
  shows "v = Some s"
proof (cases "length s \<le> 50")
  case True
  with assms(1) show ?thesis by (simp add: varchar_short)
next
  case False
  define u where "u = take 50 s"
  from False have len: "length u = 50" by (simp add: u_def)
  from False assms(1) have "v = Some u"
    by (simp add: varchar.simps u_def split: if_splits)
  with assms(2) have "length u < 50"
    by (auto simp: priority_check_def)
  with len show ?thesis by simp
qed

lemma same_id_same_row:
  assumes "distinct (map t_id ts)" and "a \<in> set ts" and "b \<in> set ts" and "t_id a = t_id b"
  shows "a = b"
  using assms by (meson distinct_map inj_onD)

lemma createTask_served:
  assumes "createTask now d p title description status priority = (r, d')"
    and "data r = Some t"
  shows "insert_task now d (sql_param title) (sql_param description)
           (sql_param (if status = Undefined then Str ''pending'' else status))
           (sql_param (if priority = Undefined then Str ''medium'' else priority)) (p_id p)
         = (Inr t, d')"
proof -
  obtain res where
    res: "Task_create now d title description status priority (p_id p) = (res, d')"
    using assms(1) by (auto simp: createTask_def Let_def split: prod.splits sum.splits)
  with assms have "res = Inr t"
    by (auto simp: createTask_def Let_def split: prod.splits sum.splits)
  with res show ?thesis by (simp add: Task_create_def Let_def)
qed

lemma snd_updateTask:
  "snd (updateTask now d p i title description status priority)
     = snd (Task_update now d i (p_id p) (p_role p = ''admin'') title description status
              priority)"
  by (simp add: updateTask_def Let_def split: prod.splits sum.splits option.splits)

lemma db_ok_updateTask:
  "db_ok d \<Longrightarrow> db_ok (snd (updateTask now d p i title description status priority))"
  by (simp add: snd_updateTask db_ok_Task_update)

lemma updateTask_frame:
  assumes "db_ok d"
    and "updateTask now d p i title description status priority = (r, d')"
    and "data r = Some t'" and "t \<in> set (tasks d)" and "t_id t = i"
  shows "(title = Undefined \<longrightarrow> t_title t' = t_title t)
       \<and> (description = Undefined \<longrightarrow> t_description t' = t_description t)
       \<and> (status = Undefined \<longrightarrow> t_status t' = t_status t)
       \<and> (priority = Undefined \<longrightarrow> t_priority t' = t_priority t)
       \<and> t_id t' = t_id t \<and> t_user_id t' = t_user_id t
       \<and> t_created_at t' = t_created_at t \<and> t_updated_at t' = now
       \<and> (\<forall>s. description = Str s \<longrightarrow> t_description t' = Some s)
       \<and> (\<forall>s. status = Str s \<longrightarrow> t_status t' = Some s)
       \<and> (\<forall>s. priority = Str s \<longrightarrow> t_priority t' = Some s)
       \<and> tasks d' = map (\<lambda>r. if t_id r = i then t' else r) (tasks d)
       \<and> users d' = users d"
proof -
  let ?none = "title = Undefined \<and> description = Undefined \<and> status = Undefined
               \<and> priority = Undefined"
  have some: "\<not> ?none"
    using assms(2,3) updateTask_none [of title description status priority now d p i]
    by (auto simp: not_found_update_def)
  have "\<exists>t\<in>set (tasks d). t_id t = i \<and> permit_spec p t"
    using assms(2,3) updateTask_miss [of d i p now title description status priority]
    by (cases "\<exists>t\<in>set (tasks d). t_id t = i \<and> permit_spec p t")
      (auto simp: not_found_update_def)
  then obtain t0 where t0: "t0 \<in> set (tasks d)" "t_id t0 = i" "permit_spec p t0" by blast
  from assms(1) have "distinct (map t_id (tasks d))" by (simp add: db_ok_def)
  from same_id_same_row [OF this t0(1) assms(4)] t0(2) assms(5) have "t0 = t" by simp
  with t0 have permit: "permit_spec p t" by simp
  note run = updateTask_hit [OF assms(1,4,5) permit some, of now]
  from run assms(2,3) have new: "set_task now title description status priority t = Inr t'"
    and tab: "d' = d\<lparr>tasks := map (\<lambda>r. if t_id r = i then t' else r) (tasks d)\<rparr>"
    by (cases "set_task now title description status priority t"; auto)+
  note f = set_task_Inr [OF new]
  have "\<forall>s. status = Str s \<longrightarrow> t_status t' = Some s"
    using f by (auto dest: varchar_checked_status)
  moreover have "\<forall>s. priority = Str s \<longrightarrow> t_priority t' = Some s"
    using f by (auto dest: varchar_checked_priority)
  moreover have "\<forall>s. description = Str s \<longrightarrow> t_description t' = Some s"
    using f by auto
  moreover have "title = Undefined \<longrightarrow> t_title t' = t_title t"
    "description = Undefined \<longrightarrow> t_description t' = t_description t"
    "status = Undefined \<longrightarrow> t_status t' = t_status t"
    "priority = Undefined \<longrightarrow> t_priority t' = t_priority t"
    using f by simp_all
  moreover have "t_id t' = t_id t" "t_user_id t' = t_user_id t"
    "t_created_at t' = t_created_at t" "t_updated_at t' = now"
    using f by simp_all
  moreover from tab have "tasks d' = map (\<lambda>r. if t_id r = i then t' else r) (tasks d)"
    "users d' = users d" by simp_all
  ultimately show ?thesis by (intro conjI)
qed

lemma create_update_fetch:
  assumes "db_ok d"
    and "createTask now d p title description status priority = (r1, d1)"
    and "data r1 = Some t1"
    and "s \<in> set [''pending'', ''in_progress'', ''completed'']"
    and "updateTask now' d1 p (t_id t1) Undefined Undefined (Str s) Undefined = (r2, d2)"
  shows "status_code r2 = 200
       \<and> (\<exists>v. getTaskById d2 p (t_id t1) =
                 \<lparr>status_code = 200, success = True, message = None, data = Some v,
                  fault = None\<rparr>
              \<and> t_title v = t_title t1 \<and> t_description v = t_description t1
              \<and> t_priority v = t_priority t1 \<and> t_status v = Some s)"
proof -
  note ins = insert_task_Inr [OF createTask_served [OF assms(2,3)]]
  from assms(2) have "d1 = snd (createTask now d p title description status priority)"
    by simp
  with assms(1) have ok1: "db_ok d1" by (simp add: db_ok_createTask)
  from ins have mem1: "t1 \<in> set (tasks d1)" by simp
  from ins have permit1: "permit_spec p t1" by (simp add: permit_spec_def)
  from ins have chk: "status_check (t_status t1)" "priority_check (t_priority t1)"
    by simp_all
  from assms(4) obtain t' where
    new: "set_task now' Undefined Undefined (Str s) Undefined t1 = Inr t'"
    using set_task_accepts [OF chk, of Undefined "Str s" Undefined now' Undefined] by auto
  have run: "updateTask now' d1 p (t_id t1) Undefined Undefined (Str s) Undefined =
        (\<lparr>status_code = 200, success = True,
          message = Some ''Task updated successfully'', data = Some t', fault = None\<rparr>,
         d1\<lparr>tasks := map (\<lambda>r. if t_id r = t_id t1 then t' else r) (tasks d1)\<rparr>)"
    using updateTask_hit [OF ok1 mem1 refl permit1, of Undefined Undefined "Str s" Undefined now']
      new by simp
  with assms(5) have r2: "status_code r2 = 200" "data r2 = Some t'"
    and d2: "d2 = d1\<lparr>tasks := map (\<lambda>r. if t_id r = t_id t1 then t' else r) (tasks d1)\<rparr>"
    by auto
  note fr = updateTask_frame [OF ok1 assms(5) r2(2) mem1 refl]
  from assms(5) have "d2 = snd (updateTask now' d1 p (t_id t1) Undefined Undefined (Str s)
                                  Undefined)"
    by simp
  with ok1 have ok2: "db_ok d2" by (simp add: db_ok_updateTask)
  from d2 mem1 have mem2: "t' \<in> set (tasks d2)" by force
  from fr permit1 have permit2: "permit_spec p t'" by (simp add: permit_spec_def)
  from getTaskById_hit [OF ok2 mem2 permit2] obtain v where
    v: "getTaskById d2 p (t_id t') =
          \<lparr>status_code = 200, success = True, message = None, data = Some v,
           fault = None\<rparr>" "task.truncate v = t'"
    by blast
  from v(2) have "t_title v = t_title t'" "t_description v = t_description t'"
    "t_priority v = t_priority t'" "t_status v = t_status t'"
    by (metis truncate_selectors)+
  with fr v(1) r2(1) show ?thesis by simp
qed

subsection \<open>Rows of the user table\<close>











lemma user_constraints_Inr:
  "user_constraints name email password role = Inr (n, e, p) \<longleftrightarrow>
     name = Some n \<and> email = Some e \<and> password = Some p \<and> role_check role"
  by (cases name; cases email; cases password) (auto simp: user_constraints_def)

lemma set_user_Inr:
  assumes "set_user now name email role u = Inr u'"
  shows "u_id u' = u_id u \<and> u_password u' = u_password u \<and> u_created_at u' = u_created_at u
       \<and> u_updated_at u' = now \<and> role_check (u_role u')
       \<and> (name = Undefined \<longrightarrow> u_name u' = u_name u)
       \<and> (email = Undefined \<longrightarrow> u_email u' = u_email u)
       \<and> (role = Undefined \<longrightarrow> u_role u' = u_role u)"
proof -
  from assms obtain name' email' role' x where
    a: "(if name \<noteq> Undefined then varchar 255 (sql_param name) else Inr (Some (u_name u)))
        = Inr name'"
    and b: "(if email \<noteq> Undefined then varchar 255 (sql_param email)
             else Inr (Some (u_email u))) = Inr email'"
    and c: "(if role \<noteq> Undefined then varchar 50 (sql_param role) else Inr (u_role u))
            = Inr role'"
    and x: "user_constraints name' email' (Some (u_password u)) role' = Inr x"
    and r: "(case x of (n, e, p) \<Rightarrow>
               Inr (u\<lparr>u_name := n, u_email := e, u_role := role', u_updated_at := now\<rparr>))
            = (Inr u' :: db_error + user)"
    unfolding set_user_def and_then_Inr_iff by blast
  obtain n e p where xe: "x = (n, e, p)" by (cases x) auto
  from x have chk: "name' = Some n" "email' = Some e" "role_check role'"
    unfolding xe user_constraints_Inr by simp_all
  from r have u': "u' = u\<lparr>u_name := n, u_email := e, u_role := role', u_updated_at := now\<rparr>"
    unfolding xe by simp
  from a chk(1) have "name = Undefined \<longrightarrow> u_name u' = u_name u"
    by (auto simp: u')
  moreover from b chk(2) have "email = Undefined \<longrightarrow> u_email u' = u_email u"
    by (auto simp: u')
  moreover from c have "role = Undefined \<longrightarrow> u_role u' = u_role u"
    by (auto simp: u')
  ultimately show ?thesis using chk(3) by (simp add: u')
qed

lemma User_create_row:
  assumes "fst (User_create bcrypt_hash now d name email password role) = Inr row"
  shows "\<exists>u. snd (User_create bcrypt_hash now d name email password role)
               = d\<lparr>users_id_seq := users_id_seq d + 1, users := users d @ [u]\<rparr>
           \<and> u_id u = users_id_seq d \<and> u_email u \<notin> set (map u_email (users d))
           \<and> role_check (u_role u)"
proof -
  define res where
    "res = and_then (varchar 255 (sql_param name)) (\<lambda>name'.
           and_then (varchar 255 (sql_param email)) (\<lambda>email'.
           and_then (varchar 255 (Some (bcrypt_hash password 10))) (\<lambda>password'.
           and_then (varchar 50 (sql_param (if role = Undefined then Str ''user'' else role)))
             (\<lambda>role'.
           and_then (user_constraints name' email' password' role') (\<lambda>(n, e, p).
             if e \<in> set (map u_email (users d)) then Inl UniqueViolation
             else Inr \<lparr>u_id = users_id_seq d, u_name = n, u_email = e, u_password = p,
                        u_role = role', u_created_at = now, u_updated_at = now\<rparr>)))))"
  have run: "User_create bcrypt_hash now d name email password role =
      (case res of
         Inl e \<Rightarrow> (Inl e, d\<lparr>users_id_seq := users_id_seq d + 1\<rparr>)
       | Inr u \<Rightarrow>
           (Inr (select_columns [''id'', ''name'', ''email'', ''role'', ''created_at''] u),
            d\<lparr>users_id_seq := users_id_seq d + 1, users := users d @ [u]\<rparr>))"
    by (simp add: User_create_def Let_def res_def)
  with assms obtain u where u: "res = Inr u"
    by (cases res) simp_all
  then obtain name' email' password' role' x where
    x: "user_constraints name' email' password' role' = Inr x"
    and r: "(case x of (n, e, p) \<Rightarrow>
              if e \<in> set (map u_email (users d)) then Inl UniqueViolation
              else Inr \<lparr>u_id = users_id_seq d, u_name = n, u_email = e, u_password = p,
                         u_role = role', u_created_at = now, u_updated_at = now\<rparr>) = Inr u"
    unfolding res_def and_then_Inr_iff by blast
  obtain n e p where xe: "x = (n, e, p)" by (cases x) auto
  from x have "role_check role'" unfolding xe user_constraints_Inr by simp
  moreover from r have "e \<notin> set (map u_email (users d))"
    and "u = \<lparr>u_id = users_id_seq d, u_name = n, u_email = e, u_password = p,
                u_role = role', u_created_at = now, u_updated_at = now\<rparr>"
    unfolding xe by (simp_all split: if_splits)
  ultimately have "snd (User_create bcrypt_hash now d name email password role)
               = d\<lparr>users_id_seq := users_id_seq d + 1, users := users d @ [u]\<rparr>
           \<and> u_id u = users_id_seq d \<and> u_email u \<notin> set (map u_email (users d))
           \<and> role_check (u_role u)"
    using run u by simp
  then show ?thesis by (rule exI)
qed

lemma db_ok_User_create:
  assumes "db_ok d"
  shows "db_ok (snd (User_create bcrypt_hash now d name email password role))"
proof (cases "fst (User_create bcrypt_hash now d name email password role)")
  case (Inl e)
  then have "snd (User_create bcrypt_hash now d name email password role)
             = d\<lparr>users_id_seq := users_id_seq d + 1\<rparr>"
    by (auto simp: User_create_def Let_def split: sum.splits)
  with assms show ?thesis
    by (auto simp: db_ok_def list_all_iff)
next
  case (Inr row)
  from User_create_row [OF this] obtain u where
    d': "snd (User_create bcrypt_hash now d name email password role)
           = d\<lparr>users_id_seq := users_id_seq d + 1, users := users d @ [u]\<rparr>"
    and u: "u_id u = users_id_seq d" "u_email u \<notin> set (map u_email (users d))"
      "role_check (u_role u)"
    by blast
  from assms have "\<forall>r\<in>set (users d). u_id r < users_id_seq d"
    by (simp add: db_ok_def list_all_iff)
  with u have "u_id u \<notin> u_id ` set (users d)" by auto
  with u assms show ?thesis
    unfolding d' by (auto simp: db_ok_def list_all_iff)
qed

lemma db_ok_User_update:
  assumes "db_ok d"
  shows "db_ok (snd (User_update now d i name email role))"
proof (cases "name = Undefined \<and> email = Undefined \<and> role = Undefined")
  case True
  with assms show ?thesis by (simp add: User_update_def)
next
  case False
  let ?wh = "\<lambda>u. u_id u = i"
  let ?upd = "set_user now name email role"
  show ?thesis
  proof (cases "update_rows ?wh ?upd (users d)")
    case (Inl e)
    with False assms show ?thesis by (auto simp: User_update_def)
  next
    case (Inr res)
    obtain tab ret where res: "res = (tab, ret)" by (cases res)
    show ?thesis
    proof (cases "distinct (map u_email tab)")
      case False
      with \<open>\<not> (name = Undefined \<and> email = Undefined \<and> role = Undefined)\<close> Inr res assms
      show ?thesis by (auto simp: User_update_def)
    next
      case True
      from Inr res
      have rel: "list_all2 (\<lambda>r r'. if ?wh r then ?upd r = Inr r' else r' = r) (users d) tab"
        using update_rows_Inr by blast
      have step: "u_id r' = u_id r \<and> (role_check (u_role r) \<longrightarrow> role_check (u_role r'))"
        if "if ?wh r then ?upd r = Inr r' else r' = r" for r r'
      proof (cases "?wh r")
        case True
        with that have "?upd r = Inr r'" by simp
        from set_user_Inr [OF this] show ?thesis by simp
      next
        case False
        with that show ?thesis by simp
      qed
      from rel have ids: "map u_id tab = map u_id (users d)"
        by (intro list_all2_same_map) (erule list_all2_mono, use step in blast)
      let ?P = "\<lambda>u. u_id u < users_id_seq d \<and> role_check (u_role u)"
      from assms have "list_all ?P (users d)" by (simp add: db_ok_def)
      with rel have "list_all ?P tab"
        by (rule list_all2_transfer_all) (use step in \<open>metis (no_types, lifting)\<close>)
      with ids True assms have "db_ok (d\<lparr>users := tab\<rparr>)"
        by (simp add: db_ok_def)
      with \<open>\<not> (name = Undefined \<and> email = Undefined \<and> role = Undefined)\<close> Inr res True
      show ?thesis by (auto simp: User_update_def)
    qed
  qed
qed

lemma db_ok_User_delete:
  assumes "db_ok d"
  shows "db_ok (snd (User_delete d i))"
  using assms
  by (auto simp: User_delete_def db_ok_def list_all_iff distinct_map_filter)

text \<open>Deleting a user leaves none of its tasks.\<close>

lemma User_delete_cascade:
  "\<forall>t\<in>set (tasks (snd (User_delete d i))). t_user_id t \<noteq> i"
  by (simp add: User_delete_def)

subsection \<open>Requests that are served\<close>

text \<open>A request with proper values from a principal whose user exists is served.\<close>

lemma createTask_accepts:
  assumes "p_id p \<in> set (map u_id (users d))"
    and "title = Str s" and "length s \<le> 255"
    and "status = Undefined \<or> status = Null
         \<or> (\<exists>v. status = Str v \<and> v \<in> set [''pending'', ''in_progress'', ''completed''])"
    and "priority = Undefined \<or> priority = Null
         \<or> (\<exists>v. priority = Str v \<and> v \<in> set [''low'', ''medium'', ''high''])"
  shows "\<exists>t. fst (createTask now d p title description status priority) =
              \<lparr>status_code = 201, success = True,
               message = Some ''Task created successfully'', data = Some t, fault = None\<rparr>"
proof -
  from assms(4) obtain b where
    b: "varchar 50 (sql_param (if status = Undefined then Str ''pending'' else status))
        = Inr b" "status_check b"
    by (auto simp: varchar_short varchar_None status_check_def)
  from assms(5) obtain c where
    c: "varchar 50 (sql_param (if priority = Undefined then Str ''medium'' else priority))
        = Inr c" "priority_check c"
    by (auto simp: varchar_short varchar_None priority_check_def)
  from assms(2,3) have a: "varchar 255 (sql_param title) = Inr (Some s)"
    by (simp add: varchar_short)
  show ?thesis
    using assms(1) b(2) c(2)
    by (simp add: createTask_def Task_create_def insert_task_def Let_def a b(1) c(1)
        and_then_def task_constraints_def)
qed

section \<open>Creating a task\<close>

text \<open>
  C5. For every create request that is served, the new row is owned by the requesting
  principal, its status is \<open>pending\<close> when the request leaves the status out, and its
  priority is \<open>medium\<close> when the request leaves the priority out. The row is the one
  appended to the table.
\<close>

theorem createTask_owner_and_defaults:
  assumes "createTask now d p title description status priority = (r, d')"
    and "data r = Some t"
  shows "t_user_id t = p_id p
       \<and> (status = Undefined \<longrightarrow> t_status t = Some ''pending'')
       \<and> (priority = Undefined \<longrightarrow> t_priority t = Some ''medium'')
       \<and> tasks d' = tasks d @ [t] \<and> status_code r = 201"
proof -
  obtain res where
    res: "Task_create now d title description status priority (p_id p) = (res, d')"
    using assms(1) by (auto simp: createTask_def Let_def split: prod.splits sum.splits)
  with assms have "res = Inr t" and code: "status_code r = 201"
    by (auto simp: createTask_def Let_def split: prod.splits sum.splits)
  with res have ins:
    "insert_task now d (sql_param title) (sql_param description)
       (sql_param (if status = Undefined then Str ''pending'' else status))
       (sql_param (if priority = Undefined then Str ''medium'' else priority)) (p_id p)
     = (Inr t, d')"
    by (simp add: Task_create_def Let_def)
  note f = insert_task_Inr [OF ins]
  from f have "status = Undefined \<longrightarrow> t_status t = Some ''pending''"
    by (auto simp: varchar_short)
  moreover from f have "priority = Undefined \<longrightarrow> t_priority t = Some ''medium''"
    by (auto simp: varchar_short)
  moreover from f have "tasks d' = tasks d @ [t]" by simp
  ultimately show ?thesis using f code by simp
qed

text \<open>Alice's request with neither status nor priority, on the database without tasks.\<close>

theorem createTask_owner_and_defaults_witness:
  "createTask 10 db0 p_alice (Str ''Write report'') (Str ''Q3'') Undefined Undefined
     = (created1, db1)
   \<and> data created1 = Some task1
   \<and> t_user_id task1 = p_id p_alice
   \<and> t_status task1 = Some ''pending'' \<and> t_priority task1 = Some ''medium''
   \<and> tasks db1 = tasks db0 @ [task1] \<and> status_code created1 = 201"
proof -
  have run: "createTask 10 db0 p_alice (Str ''Write report'') (Str ''Q3'') Undefined Undefined
               = (created1, db1)"
    by (simp add: createTask_def Task_create_def insert_task_def and_then_def
        task_constraints_def status_check_def priority_check_def varchar.simps
        db0_def db1_def p_alice_def alice_def bob_def carol_def created1_def task1_def)
  have body: "data created1 = Some task1"
    by (simp add: created1_def)
  from createTask_owner_and_defaults [OF run body] run body show ?thesis by simp
qed

section \<open>Listing tasks\<close>

text \<open>
  C2. In every state that the schema admits and for every principal, \<open>getAllTasks\<close>
  answers 200 with rows whose task columns are all tasks of the table when the
  principal's role is \<open>admin\<close>, and exactly the tasks whose \<open>user_id\<close> is the
  principal's id otherwise (as multisets, so nothing is repeated or dropped); the rows
  are in descending order of \<open>created_at\<close>.
\<close>

theorem list_scope_and_order:
  assumes "db_ok d"
  shows "\<exists>rows. getAllTasks d p =
            \<lparr>status_code = 200, success = True, message = None,
             data = Some (rows, length rows), fault = None\<rparr>
         \<and> (p_role p = ''admin'' \<longrightarrow> mset (map task.truncate rows) = mset (tasks d))
         \<and> (p_role p \<noteq> ''admin'' \<longrightarrow>
              mset (map task.truncate rows)
                = mset (filter (\<lambda>t. t_user_id t = p_id p) (tasks d)))
         \<and> sorted_wrt (\<lambda>a b. t_created_at b \<le> t_created_at a) rows"
proof -
  let ?rows = "Task_findAll d (p_id p) (p_role p = ''admin'')"
  have "getAllTasks d p =
          \<lparr>status_code = 200, success = True, message = None,
           data = Some (?rows, length ?rows), fault = None\<rparr>"
    by (simp add: getAllTasks_def Let_def)
  moreover have "sorted_wrt (\<lambda>a b. t_created_at b \<le> t_created_at a) ?rows"
    unfolding Task_findAll_def Let_def by (rule order_by_desc_sorted)
  moreover have "p_role p = ''admin'' \<longrightarrow> mset (map task.truncate ?rows) = mset (tasks d)"
    using Task_findAll_truncate [OF assms, of "p_id p" True] by simp
  moreover have "p_role p \<noteq> ''admin'' \<longrightarrow>
      mset (map task.truncate ?rows) = mset (filter (\<lambda>t. t_user_id t = p_id p) (tasks d))"
    using Task_findAll_truncate [OF assms, of "p_id p" False] by simp
  ultimately show ?thesis by blast
qed

text \<open>Alice, who is not an administrator, lists the two-task database.\<close>

theorem list_scope_and_order_witness:
  "db_ok db2 \<and>
   (\<exists>rows. getAllTasks db2 p_alice =
            \<lparr>status_code = 200, success = True, message = None,
             data = Some (rows, length rows), fault = None\<rparr>
         \<and> mset (map task.truncate rows) = mset [task1]
         \<and> sorted_wrt (\<lambda>a b. t_created_at b \<le> t_created_at a) rows)"
proof -
  have ok: "db_ok db2"
    by (simp add: db_ok_def db2_def task1_def task2_def alice_def bob_def carol_def
        status_check_def priority_check_def role_check_def)
  have own: "filter (\<lambda>t. t_user_id t = p_id p_alice) (tasks db2) = [task1]"
    by (simp add: db2_def task1_def task2_def p_alice_def)
  have role: "p_role p_alice \<noteq> ''admin''"
    by (simp add: p_alice_def)
  from list_scope_and_order [OF ok, of p_alice] own role ok show ?thesis by simp
qed

text \<open>
  C9. For two principals whose role is \<open>admin\<close>, the list and the statistics over
  the same database are equal, in the store and in the responses of the controllers:
  with the administrator role, the results do not depend on the principal's id.
\<close>

theorem admin_results_independent_of_id:
  assumes "p_role p = ''admin''" and "p_role q = ''admin''"
  shows "Task_findAll d (p_id p) (p_role p = ''admin'') = Task_findAll d (p_id q) (p_role q = ''admin'')
       \<and> Task_getStats d (p_id p) (p_role p = ''admin'') = Task_getStats d (p_id q) (p_role q = ''admin'')
       \<and> getAllTasks d p = getAllTasks d q \<and> getTaskStats d p = getTaskStats d q"
  using assms
  by (simp add: getAllTasks_def getTaskStats_def Task_findAll_def Task_getStats_def Let_def)

text \<open>Bob and Carol are administrators with different ids.\<close>

theorem admin_results_independent_of_id_witness:
  "p_role p_bob = ''admin'' \<and> p_role p_carol = ''admin'' \<and> p_id p_bob \<noteq> p_id p_carol
   \<and> getAllTasks db2 p_bob = getAllTasks db2 p_carol
   \<and> getTaskStats db2 p_bob = getTaskStats db2 p_carol"
proof -
  have a: "p_role p_bob = ''admin''" and b: "p_role p_carol = ''admin''"
    and c: "p_id p_bob \<noteq> p_id p_carol"
    by (simp_all add: p_bob_def p_carol_def)
  from admin_results_independent_of_id [OF a b, of db2] a b c show ?thesis by simp
qed

section \<open>Updating a task\<close>




section \<open>Access to a single task\<close>




section \<open>Partial updates\<close>

text \<open>
  C3. In every state that the schema admits, a successful update of the task with id
  \<open>i\<close> leaves every field that the request does not have as it was, as well as
  the id, the owner and the creation time; a description, status or priority that the
  request has takes the request's value, \<open>updated_at\<close> becomes the current time,
  and no other row and no user changes. In particular, after creating a task and
  updating it with a status only, fetching it yields the title, description and priority
  of the created task and the new status.
\<close>

theorem update_leaves_absent_fields:
  "(db_ok d \<and> updateTask now d p i title description status priority = (r, d')
      \<and> data r = Some t' \<and> t \<in> set (tasks d) \<and> t_id t = i \<longrightarrow>
      (title = Undefined \<longrightarrow> t_title t' = t_title t)
      \<and> (description = Undefined \<longrightarrow> t_description t' = t_description t)
      \<and> (status = Undefined \<longrightarrow> t_status t' = t_status t)
      \<and> (priority = Undefined \<longrightarrow> t_priority t' = t_priority t)
      \<and> t_id t' = t_id t \<and> t_user_id t' = t_user_id t
      \<and> t_created_at t' = t_created_at t \<and> t_updated_at t' = now
      \<and> (\<forall>s. description = Str s \<longrightarrow> t_description t' = Some s)
      \<and> (\<forall>s. status = Str s \<longrightarrow> t_status t' = Some s)
      \<and> (\<forall>s. priority = Str s \<longrightarrow> t_priority t' = Some s)
      \<and> tasks d' = map (\<lambda>r. if t_id r = i then t' else r) (tasks d)
      \<and> users d' = users d)
   \<and> (db_ok d0 \<and> createTask now0 d0 q title0 description0 status0 priority0 = (r1, d1)
      \<and> data r1 = Some t1 \<and> s \<in> set [''pending'', ''in_progress'', ''completed'']
      \<and> updateTask now1 d1 q (t_id t1) Undefined Undefined (Str s) Undefined = (r2, d2)
      \<longrightarrow>
      status_code r2 = 200
      \<and> (\<exists>v. getTaskById d2 q (t_id t1) =
                \<lparr>status_code = 200, success = True, message = None, data = Some v,
                 fault = None\<rparr>
             \<and> t_title v = t_title t1 \<and> t_description v = t_description t1
             \<and> t_priority v = t_priority t1 \<and> t_status v = Some s))"
  apply (rule conjI)
  subgoal by (intro impI, elim conjE) (rule updateTask_frame; assumption)
  subgoal by (intro impI, elim conjE) (rule create_update_fetch; assumption)
  done

text \<open>Alice creates a task at time 10 and completes it at time 30.\<close>

theorem update_leaves_absent_fields_witness:
  "db_ok db2
   \<and> updateTask 30 db2 p_alice 1 Undefined Undefined (Str ''completed'') Undefined
       = (updated1, db2_done)
   \<and> data updated1 = Some task1_done \<and> task1 \<in> set (tasks db2) \<and> t_id task1 = 1
   \<and> t_title task1_done = t_title task1 \<and> t_description task1_done = t_description task1
   \<and> t_priority task1_done = t_priority task1 \<and> t_status task1_done = Some ''completed''
   \<and> tasks db2_done = map (\<lambda>r. if t_id r = 1 then task1_done else r) (tasks db2)
   \<and> db_ok db0
   \<and> createTask 10 db0 p_alice (Str ''Write report'') (Str ''Q3'') Undefined Undefined
       = (created1, db1)
   \<and> data created1 = Some task1
   \<and> updateTask 30 db1 p_alice (t_id task1) Undefined Undefined (Str ''completed'') Undefined
       = (updated1, db1_done)
   \<and> (\<exists>v. getTaskById db1_done p_alice (t_id task1) =
             \<lparr>status_code = 200, success = True, message = None, data = Some v,
              fault = None\<rparr>
          \<and> t_title v = ''Write report'' \<and> t_description v = Some ''Q3''
          \<and> t_priority v = Some ''medium'' \<and> t_status v = Some ''completed'')"
proof -
  have ok2: "db_ok db2" and ok0: "db_ok db0"
    by (simp_all add: db_ok_def db2_def db0_def task1_def task2_def alice_def bob_def
        carol_def status_check_def priority_check_def role_check_def)
  have up2: "updateTask 30 db2 p_alice 1 Undefined Undefined (Str ''completed'') Undefined
             = (updated1, db2_done)"
    by (simp add: updateTask_def Task_update_def set_task_def and_then_def rows0_def
        task_constraints_def status_check_def priority_check_def varchar.simps
        db2_def db2_done_def task1_def task2_def task1_done_def updated1_def p_alice_def)
  have body2: "data updated1 = Some task1_done" by (simp add: updated1_def)
  have row: "task1 \<in> set (tasks db2)" "t_id task1 = 1"
    by (simp_all add: db2_def task1_def)
  have mk: "createTask 10 db0 p_alice (Str ''Write report'') (Str ''Q3'') Undefined Undefined
            = (created1, db1)"
    by (simp add: createTask_def Task_create_def insert_task_def and_then_def
        task_constraints_def status_check_def priority_check_def varchar.simps
        db0_def db1_def p_alice_def alice_def bob_def carol_def created1_def task1_def)
  have body1: "data created1 = Some task1" by (simp add: created1_def)
  have st: "''completed'' \<in> set [''pending'', ''in_progress'', ''completed'']" by simp
  have up1: "updateTask 30 db1 p_alice (t_id task1) Undefined Undefined (Str ''completed'')
               Undefined = (updated1, db1_done)"
    by (simp add: updateTask_def Task_update_def set_task_def and_then_def rows0_def
        task_constraints_def status_check_def priority_check_def varchar.simps
        db1_def db1_done_def task1_def task1_done_def updated1_def p_alice_def)
  note th = update_leaves_absent_fields [where d = db2 and now = 30 and p = p_alice and i = 1
      and title = Undefined and description = Undefined and status = "Str ''completed''"
      and priority = Undefined and r = updated1 and d' = db2_done and t' = task1_done
      and t = task1 and ?d0.0 = db0 and ?now0.0 = 10 and q = p_alice
      and ?title0.0 = "Str ''Write report''" and ?description0.0 = "Str ''Q3''"
      and ?status0.0 = Undefined and ?priority0.0 = Undefined and ?r1.0 = created1
      and ?d1.0 = db1 and ?t1.0 = task1 and s = "''completed''" and ?now1.0 = 30
      and ?r2.0 = updated1 and ?d2.0 = db1_done]
  from th ok2 up2 body2 row
  have frame: "t_title task1_done = t_title task1
      \<and> t_description task1_done = t_description task1
      \<and> t_priority task1_done = t_priority task1 \<and> t_status task1_done = Some ''completed''
      \<and> tasks db2_done = map (\<lambda>r. if t_id r = 1 then task1_done else r) (tasks db2)"
    by simp
  from th ok0 mk body1 st up1
  have "\<exists>v. getTaskById db1_done p_alice (t_id task1) =
             \<lparr>status_code = 200, success = True, message = None, data = Some v,
              fault = None\<rparr>
          \<and> t_title v = t_title task1 \<and> t_description v = t_description task1
          \<and> t_priority v = t_priority task1 \<and> t_status v = Some ''completed''"
    by blast
  then have "\<exists>v. getTaskById db1_done p_alice (t_id task1) =
             \<lparr>status_code = 200, success = True, message = None, data = Some v,
              fault = None\<rparr>
          \<and> t_title v = ''Write report'' \<and> t_description v = Some ''Q3''
          \<and> t_priority v = Some ''medium'' \<and> t_status v = Some ''completed''"
    by (simp add: task1_def)
  with frame ok2 up2 body2 row ok0 mk body1 up1 show ?thesis by blast
qed

section \<open>User rows\<close>



end
